theory Spec2Isabelle
  imports Complex_Main "HOL-Library.Multiset" "HOL-Library.Sublist"
begin

section \<open>Data frames of the movie recommender\<close>

text \<open>
  The program is a batch pipeline over two tables. A table (a pandas DataFrame) is
  modelled as the list of its rows in row order, a row as a record of its columns.
  Numeric columns hold exact rationals: the formulas of the program are modelled as
  written, rounding of binary floating point is not part of the model. Strings are
  lists of 8-bit characters, so text is ASCII. A missing \<open>genres\<close> cell (NaN) is
  \<open>None\<close>.
\<close>

record movie_row =
  movieId :: int
  title :: string
  genres :: "string option"

record rating_row =
  userId :: int
  movieId :: int
  rating :: rat
  timestamp :: int

text \<open>The frame built by \<open>calculate_popularity\<close>, column by column.\<close>

record stat_row =
  movieId :: int
  avg_rating :: rat
  rating_count :: int

record pop_row = stat_row +
  avg_rating_scaled :: rat
  rating_count_scaled :: rat
  popularity_score :: rat

record entry = pop_row +
  title :: string
  genres :: "string option"

datatype error =
  Value_error          \<comment> \<open>MinMaxScaler fitted on a frame without rows\<close>
  | Zero_division      \<comment> \<open>a quotient with divisor zero (never reached, see below)\<close>
  | Re_error           \<comment> \<open>\<open>re.error\<close>: the genre does not compile as a regular expression\<close>
  | Unmodelled_pattern \<comment> \<open>no outcome of the program: the genre is a pattern that the
                           concrete pattern model below does not cover\<close>

section \<open>Library operations\<close>

subsection \<open>groupby, mean, count, merge, head\<close>

text \<open>\<open>groupby('movieId')\<close> yields one group per distinct key, keys ascending.\<close>

definition group_keys :: "rating_row list \<Rightarrow> int list" where
  "group_keys df = sort (remdups (map rating_row.movieId df))"

definition group_ratings :: "rating_row list \<Rightarrow> int \<Rightarrow> rat list" where
  "group_ratings df k = map rating (filter (\<lambda>r. rating_row.movieId r = k) df)"

definition mean :: "rat list \<Rightarrow> rat" where
  "mean xs = sum_list xs / of_nat (length xs)"

text \<open>
  \<open>pd.merge(left, right, on='movieId')\<close> is an inner join that keeps the order of the
  left rows; a left row is paired with every right row of the same key.
\<close>

definition merge :: "('a \<Rightarrow> int) \<Rightarrow> ('b \<Rightarrow> int) \<Rightarrow> ('a \<Rightarrow> 'b \<Rightarrow> 'c) \<Rightarrow> 'a list \<Rightarrow> 'b list \<Rightarrow> 'c list" where
  "merge kl kr join left right =
     concat (map (\<lambda>l. map (join l) (filter (\<lambda>r. kr r = kl l) right)) left)"

text \<open>\<open>df.head(n)\<close> is the slice \<open>df[:n]\<close>: a negative \<open>n\<close> drops the last \<open>-n\<close> rows.\<close>

definition head :: "int \<Rightarrow> 'a list \<Rightarrow> 'a list" where
  "head n df = (if 0 \<le> n then take (nat n) df else take (nat (int (length df) + n)) df)"

subsection \<open>sort_values\<close>

text \<open>
  \<open>df.sort_values(col, ascending=False)\<close> asks the library for an index permutation of
  the key column (argsort) and takes the rows in that order. The program passes no
  \<open>kind\<close>, so the algorithm is the library's default quicksort, whose order among equal
  keys is left open by the library. The model therefore takes the argsort as a
  parameter; \<open>lawful_argsort\<close> is all that is assumed of it: it permutes the positions
  and the keys it lists never increase.
\<close>

definition sort_values :: "(rat list \<Rightarrow> nat list) \<Rightarrow> ('a \<Rightarrow> rat) \<Rightarrow> 'a list \<Rightarrow> 'a list" where
  "sort_values argsort key df = map (\<lambda>i. df ! i) (argsort (map key df))"

definition lawful_argsort :: "(rat list \<Rightarrow> nat list) \<Rightarrow> bool" where
  "lawful_argsort argsort \<longleftrightarrow>
     (\<forall>ks. mset (argsort ks) = mset [0..<length ks] \<and>
           sorted_wrt (\<lambda>i j. ks ! j \<le> ks ! i) (argsort ks))"

text \<open>One lawful argsort, used to run the program on concrete tables: a stable one.\<close>

definition stable_argsort :: "rat list \<Rightarrow> nat list" where
  "stable_argsort ks = map snd (sort_key (\<lambda>p. - fst p) (zip ks [0..<length ks]))"

subsection \<open>MinMaxScaler\<close>

text \<open>
  \<open>MinMaxScaler()\<close> has feature range (0, 1) and scales every column on its own.
  Fitting a column computes the attributes \<open>scale = (1 - 0) / handle_zeros_in_scale (max - min)\<close>
  and \<open>min = 0 - data_min * scale\<close> (fields \<open>scaler_scale\<close>, \<open>scaler_min\<close>); transforming maps
  \<open>x\<close> to \<open>x * scale + min\<close>. A range of
  zero is replaced by one before the division. Fitting a column without rows raises
  ValueError. The division is written as a checked one, so that a zero divisor would
  show as \<open>Zero_division\<close> in the result.
\<close>

record min_max_scaler =
  scaler_scale :: rat
  scaler_min :: rat

definition handle_zeros_in_scale :: "rat \<Rightarrow> rat" where
  "handle_zeros_in_scale r = (if r = 0 then 1 else r)"

definition checked_div :: "rat \<Rightarrow> rat \<Rightarrow> error + rat" where
  "checked_div a b = (if b = 0 then Inl Zero_division else Inr (a / b))"

definition fit :: "rat list \<Rightarrow> error + min_max_scaler" where
  "fit col =
     (if col = [] then Inl Value_error
      else
        let data_min = Min (set col);
            data_max = Max (set col);
            data_range = data_max - data_min
        in case checked_div (1 - 0) (handle_zeros_in_scale data_range) of
             Inl e \<Rightarrow> Inl e
           | Inr scale \<Rightarrow> Inr \<lparr>scaler_scale = scale, scaler_min = 0 - data_min * scale\<rparr>)"

definition transform :: "min_max_scaler \<Rightarrow> rat list \<Rightarrow> rat list" where
  "transform s col = map (\<lambda>x. x * scaler_scale s + scaler_min s) col"

definition fit_transform :: "rat list \<Rightarrow> error + rat list" where
  "fit_transform col = (case fit col of Inl e \<Rightarrow> Inl e | Inr s \<Rightarrow> Inr (transform s col))"

subsection \<open>str.contains\<close>

text \<open>
  \<open>series.str.contains(pat, case=False, na=False)\<close> leaves \<open>regex\<close> at its default
  \<open>True\<close>: it first compiles the pattern as a regular expression with the flag
  IGNORECASE, which raises \<open>re.error\<close> for a string that is no regular expression, and
  then asks for every cell whether the compiled pattern is found somewhere in it; a
  missing cell gives \<open>False\<close>. The compilation is done before any cell is looked at,
  also on a frame without rows.

  Compilation is a parameter of the model: \<open>compile\<close> maps the pattern either to an
  error or to the search predicate of the compiled pattern. What is proved of the
  program for an arbitrary \<open>compile\<close> holds whatever the rules of regular expressions are.
\<close>

definition str_contains_re ::
  "(string \<Rightarrow> error + (string \<Rightarrow> bool)) \<Rightarrow> string \<Rightarrow> string option list \<Rightarrow> error + bool list" where
  "str_contains_re compile pat series =
     (case compile pat of
        Inl e \<Rightarrow> Inl e
      | Inr search \<Rightarrow> Inr (map (\<lambda>cell. case cell of None \<Rightarrow> False | Some s \<Rightarrow> search s) series))"

text \<open>
  To run the program on concrete queries, regular expressions are modelled for a
  fragment (\<open>re_special\<close> lists the characters with a special meaning):
  \<^item> a pattern of ordinary characters and dots compiles; an ordinary character matches
    itself in either letter case, the dot matches any character but a newline;
  \<^item> a pattern whose only special character is the opening bracket does not compile
    (\<open>re.error\<close>, unterminated character set): a set is closed by a closing bracket only;
  \<^item> every other pattern is outside the fragment. The model marks it
    \<open>Unmodelled_pattern\<close> and says nothing on what the program does with it.
\<close>

datatype re_tok = Lit char | Any_char

definition re_special :: "char list" where
  "re_special = [CHR ''.'', CHR ''^'', CHR ''$'', CHR ''*'', CHR ''+'', CHR ''?'',
     CHR ''{'', CHR ''}'', CHR ''['', CHR '']'', CHR 0x5C, CHR ''|'', CHR ''('', CHR '')'']"

definition re_compile :: "string \<Rightarrow> error + re_tok list" where
  "re_compile pat =
     (let specials = filter (\<lambda>c. c \<in> set re_special \<and> c \<noteq> CHR ''.'') pat in
      if specials = [] then Inr (map (\<lambda>c. if c = CHR ''.'' then Any_char else Lit c) pat)
      else if list_all (\<lambda>c. c = CHR ''['') specials then Inl Re_error
      else Inl Unmodelled_pattern)"

definition lower :: "char \<Rightarrow> char" where
  "lower c = (let n = (of_char c :: nat) in if 65 \<le> n \<and> n \<le> 90 then char_of (n + 32) else c)"

fun tok_matches :: "re_tok \<Rightarrow> char \<Rightarrow> bool" where
  "tok_matches (Lit c) d = (lower c = lower d)"
| "tok_matches Any_char d = (d \<noteq> CHR 0x0A)"

fun match_here :: "re_tok list \<Rightarrow> string \<Rightarrow> bool" where
  "match_here [] s = True"
| "match_here (t # ts) [] = False"
| "match_here (t # ts) (c # cs) = (tok_matches t c \<and> match_here ts cs)"

fun re_search :: "re_tok list \<Rightarrow> string \<Rightarrow> bool" where
  "re_search ts [] = match_here ts []"
| "re_search ts (c # cs) = (match_here ts (c # cs) \<or> re_search ts cs)"

definition re_fragment :: "string \<Rightarrow> error + (string \<Rightarrow> bool)" where
  "re_fragment pat = (case re_compile pat of Inl e \<Rightarrow> Inl e | Inr ts \<Rightarrow> Inr (re_search ts))"

text \<open>\<open>df[mask]\<close>: the rows whose flag is true, in row order.\<close>

definition boolean_index :: "'a list \<Rightarrow> bool list \<Rightarrow> 'a list" where
  "boolean_index df flags = map fst (filter snd (zip df flags))"

section \<open>The program\<close>

subsection \<open>calculate_popularity\<close>

definition avg_ratings :: "rating_row list \<Rightarrow> (int \<times> rat) list" where
  "avg_ratings ratings_df = map (\<lambda>k. (k, mean (group_ratings ratings_df k))) (group_keys ratings_df)"

definition rating_counts :: "rating_row list \<Rightarrow> (int \<times> int) list" where
  "rating_counts ratings_df =
     map (\<lambda>k. (k, int (length (group_ratings ratings_df k)))) (group_keys ratings_df)"

text \<open>Lines 48 to 57: the per-movie statistics, before any scaling.\<close>

definition aggregate :: "rating_row list \<Rightarrow> stat_row list" where
  "aggregate ratings_df =
     merge fst fst (\<lambda>a c. \<lparr>movieId = fst a, avg_rating = snd a, rating_count = snd c\<rparr>)
       (avg_ratings ratings_df) (rating_counts ratings_df)"

definition add_scores :: "stat_row \<Rightarrow> rat \<Rightarrow> rat \<Rightarrow> pop_row" where
  "add_scores s a c =
     \<lparr>movieId = stat_row.movieId s, avg_rating = avg_rating s, rating_count = rating_count s,
      avg_rating_scaled = a, rating_count_scaled = c,
      popularity_score = 4 / 10 * a + 6 / 10 * c\<rparr>"

definition add_movie :: "pop_row \<Rightarrow> movie_row \<Rightarrow> entry" where
  "add_movie p m =
     \<lparr>movieId = stat_row.movieId p, avg_rating = avg_rating p, rating_count = rating_count p,
      avg_rating_scaled = avg_rating_scaled p, rating_count_scaled = rating_count_scaled p,
      popularity_score = popularity_score p,
      title = movie_row.title m, genres = movie_row.genres m\<rparr>"

definition calculate_popularity ::
  "(rat list \<Rightarrow> nat list) \<Rightarrow> movie_row list \<Rightarrow> rating_row list \<Rightarrow> error + entry list" where
  "calculate_popularity argsort movies_df ratings_df =
     (let popularity_df = aggregate ratings_df in
      case fit_transform (map avg_rating popularity_df) of
        Inl e \<Rightarrow> Inl e
      | Inr avg_scaled \<Rightarrow>
     (case fit_transform (map (\<lambda>s. of_int (rating_count s)) popularity_df) of
        Inl e \<Rightarrow> Inl e
      | Inr count_scaled \<Rightarrow>
          let scored = map (\<lambda>(s, a, c). add_scores s a c)
                         (zip popularity_df (zip avg_scaled count_scaled));
              sorted = sort_values argsort popularity_score scored
          in Inr (merge stat_row.movieId movie_row.movieId add_movie sorted movies_df)))"

subsection \<open>recommend_popular_movies\<close>

text \<open>
  The result is \<open>Inr None\<close> where the program returns Python's \<open>None\<close>, and
  \<open>Inr (Some rows)\<close> where it returns a frame. \<open>if genre:\<close> is false for \<open>None\<close> and for
  the empty string. \<open>recommend_popular_movies_re\<close> is the function with the compilation
  of regular expressions as a parameter, \<open>recommend_popular_movies\<close> the function on the
  modelled fragment of regular expressions.
\<close>

definition recommend_popular_movies_re ::
  "(string \<Rightarrow> error + (string \<Rightarrow> bool)) \<Rightarrow> (rat list \<Rightarrow> nat list) \<Rightarrow>
     entry list \<Rightarrow> int \<Rightarrow> string option \<Rightarrow> error + entry list option" where
  "recommend_popular_movies_re compile argsort popularity_df n genre =
     (if genre \<noteq> None \<and> genre \<noteq> Some [] then
        case str_contains_re compile (the genre) (map genres popularity_df) of
          Inl e \<Rightarrow> Inl e
        | Inr flags \<Rightarrow>
            let filtered_df = boolean_index popularity_df flags in
            if filtered_df = [] then Inr None
            else Inr (Some (head n (sort_values argsort popularity_score filtered_df)))
      else Inr (Some (head n popularity_df)))"

definition recommend_popular_movies ::
  "(rat list \<Rightarrow> nat list) \<Rightarrow> entry list \<Rightarrow> int \<Rightarrow> string option \<Rightarrow> error + entry list option" where
  "recommend_popular_movies = recommend_popular_movies_re re_fragment"

section \<open>Reference data\<close>

text \<open>
  The scenario of the specification: movie 1 is rated 5 and 3, movie 2 is rated 4;
  movie 1 is the comedy "A", movie 2 the drama "B".
\<close>

definition scenario_events :: "rating_row list" where
  "scenario_events =
     [\<lparr>userId = 1, rating_row.movieId = 1, rating = 5, timestamp = 0\<rparr>,
      \<lparr>userId = 2, rating_row.movieId = 1, rating = 3, timestamp = 0\<rparr>,
      \<lparr>userId = 3, rating_row.movieId = 2, rating = 4, timestamp = 0\<rparr>]"

definition scenario_movies :: "movie_row list" where
  "scenario_movies =
     [\<lparr>movie_row.movieId = 1, title = ''A'', genres = Some ''Comedy''\<rparr>,
      \<lparr>movie_row.movieId = 2, title = ''B'', genres = Some ''Drama''\<rparr>]"

definition entry_A :: entry where
  "entry_A =
     \<lparr>movieId = 1, avg_rating = 4, rating_count = 2, avg_rating_scaled = 0,
      rating_count_scaled = 1, popularity_score = 6 / 10, title = ''A'', genres = Some ''Comedy''\<rparr>"

definition entry_B :: entry where
  "entry_B =
     \<lparr>movieId = 2, avg_rating = 4, rating_count = 1, avg_rating_scaled = 0,
      rating_count_scaled = 0, popularity_score = 0, title = ''B'', genres = Some ''Drama''\<rparr>"

text \<open>What \<open>calculate_popularity\<close> returns on the scenario.\<close>

definition scenario_entries :: "entry list" where
  "scenario_entries = [entry_A, entry_B]"



text \<open>Two dramas of equal popularity score, as two movies with one rating of 4 each give.\<close>

definition tied_entries :: "entry list" where
  "tied_entries =
     [\<lparr>movieId = 1, avg_rating = 4, rating_count = 1, avg_rating_scaled = 0,
       rating_count_scaled = 0, popularity_score = 0, title = ''A'', genres = Some ''Drama''\<rparr>,
      \<lparr>movieId = 2, avg_rating = 4, rating_count = 1, avg_rating_scaled = 0,
       rating_count_scaled = 0, popularity_score = 0, title = ''B'', genres = Some ''Drama''\<rparr>]"

section \<open>Notions of the specification\<close>

text \<open>
  Min-max normalization as the specification words it: \<open>(value - min) / (max - min)\<close>
  over the observed minimum and maximum of the column, and the constant 0 where the
  column has zero range.
\<close>

definition min_max_norm :: "rat list \<Rightarrow> rat \<Rightarrow> rat" where
  "min_max_norm col x =
     (if Max (set col) = Min (set col) then 0
      else (x - Min (set col)) / (Max (set col) - Min (set col)))"

text \<open>The scored frame in terms of \<open>min_max_norm\<close>, before it is sorted and joined.\<close>

definition scored_rows :: "stat_row list \<Rightarrow> pop_row list" where
  "scored_rows df = map (\<lambda>s. add_scores s
      (min_max_norm (map avg_rating df) (avg_rating s))
      (min_max_norm (map (\<lambda>s. of_int (rating_count s)) df) (of_int (rating_count s)))) df"

text \<open>
  A second lawful argsort: keys descending, equal keys in the reverse of their input
  order.
\<close>

definition reverse_ties_argsort :: "rat list \<Rightarrow> nat list" where
  "reverse_ties_argsort ks = rev (map snd (sort_key fst (zip ks [0..<length ks])))"

text \<open>
  The genre filter as the specification words it: the genres string of the entry is
  present and contains the query as a substring, letter case ignored.
\<close>

definition genre_contains :: "string \<Rightarrow> entry \<Rightarrow> bool" where
  "genre_contains q e =
     (case genres e of None \<Rightarrow> False | Some s \<Rightarrow> sublist (map lower q) (map lower s))"

text \<open>
  The flag that \<open>str.contains\<close> computes for an entry, given the search predicate of the
  compiled pattern.
\<close>

definition genre_matches :: "(string \<Rightarrow> bool) \<Rightarrow> entry \<Rightarrow> bool" where
  "genre_matches search e = (case genres e of None \<Rightarrow> False | Some s \<Rightarrow> search s)"



section \<open>The aggregator\<close>

lemma filter_key_unique:
  "distinct ks \<Longrightarrow> k \<in> set ks \<Longrightarrow>
   filter (\<lambda>r. fst r = k) (map (\<lambda>j. (j, g j)) ks) = [(k, g k)]"
proof (induction ks)
  case Nil
  then show ?case by simp
next
  case (Cons a ks)
  show ?case
  proof (cases "a = k")
    case True
    with Cons.prems have "k \<notin> set ks" by simp
    then have "filter (\<lambda>r. fst r = k) (map (\<lambda>j. (j, g j)) ks) = []"
      by (induction ks) auto
    with True show ?thesis by simp
  next
    case False
    with Cons show ?thesis by auto
  qed
qed

lemma distinct_group_keys: "distinct (group_keys df)"
  by (simp add: group_keys_def)

lemma set_group_keys: "set (group_keys df) = rating_row.movieId ` set df"
  by (simp add: group_keys_def)

text \<open>Both grouped frames list the same distinct keys, so the join pairs them one to one.\<close>

lemma aggregate_rows:
  "aggregate df =
     map (\<lambda>k. \<lparr>movieId = k, avg_rating = mean (group_ratings df k),
               rating_count = int (length (group_ratings df k))\<rparr>) (group_keys df)"
proof -
  let ?row = "\<lambda>k. \<lparr>movieId = k, avg_rating = mean (group_ratings df k),
               rating_count = int (length (group_ratings df k))\<rparr>"
  have one: "map (\<lambda>c. \<lparr>movieId = k, avg_rating = a, rating_count = snd c\<rparr>)
        (filter (\<lambda>r. fst r = k) (rating_counts df)) = [\<lparr>movieId = k, avg_rating = a,
               rating_count = int (length (group_ratings df k))\<rparr>]"
    if "k \<in> set (group_keys df)" for k a
    using filter_key_unique [OF distinct_group_keys that, of "\<lambda>j. int (length (group_ratings df j))"]
    by (simp add: rating_counts_def)
  have "aggregate df = concat (map (\<lambda>k. [?row k]) (group_keys df))"
    unfolding aggregate_def merge_def avg_ratings_def
    by (simp add: o_def one cong: map_cong)
  then show ?thesis by simp
qed

lemma group_ratings_nonempty:
  "k \<in> set (group_keys df) \<Longrightarrow> group_ratings df k \<noteq> []"
  by (auto simp: group_keys_def group_ratings_def filter_empty_conv)

text \<open>
  Claim C7. For every sequence of rating events the aggregator (lines 48 to 57 of
  \<open>calculate_popularity\<close>) yields exactly one statistics row per distinct movieId of the
  events: the ids of its rows are pairwise distinct and are exactly the ids that occur.
  In each row \<open>rating_count\<close> is the number of events of that movie (hence at least 1)
  and \<open>avg_rating\<close> is the sum of that movie's rating values divided by their number.
  On the empty event sequence the result is the empty frame; the aggregator has no
  error result at all.
\<close>

theorem aggregate_one_stat_per_movie:
  "distinct (map stat_row.movieId (aggregate df)) \<and>
   set (map stat_row.movieId (aggregate df)) = rating_row.movieId ` set df \<and>
   (\<forall>s \<in> set (aggregate df).
      rating_count s = int (length (filter (\<lambda>r. rating_row.movieId r = stat_row.movieId s) df)) \<and>
      1 \<le> rating_count s \<and>
      avg_rating s =
        sum_list (map rating (filter (\<lambda>r. rating_row.movieId r = stat_row.movieId s) df))
          / of_int (rating_count s)) \<and>
   aggregate [] = []"
proof -
  have keys: "map stat_row.movieId (aggregate df) = group_keys df"
    by (simp add: aggregate_rows o_def)
  have rows: "rating_count s = int (length (filter (\<lambda>r. rating_row.movieId r = stat_row.movieId s) df)) \<and>
      1 \<le> rating_count s \<and>
      avg_rating s =
        sum_list (map rating (filter (\<lambda>r. rating_row.movieId r = stat_row.movieId s) df))
          / of_int (rating_count s)" if "s \<in> set (aggregate df)" for s
  proof -
    from that obtain k where k: "k \<in> set (group_keys df)"
      and s: "s = \<lparr>movieId = k, avg_rating = mean (group_ratings df k),
               rating_count = int (length (group_ratings df k))\<rparr>"
      by (auto simp: aggregate_rows)
    from group_ratings_nonempty [OF k]
    have "Suc 0 \<le> length (filter (\<lambda>r. rating_row.movieId r = k) df)"
      by (cases "filter (\<lambda>r. rating_row.movieId r = k) df") (simp_all add: group_ratings_def)
    then show ?thesis
      by (simp add: s mean_def group_ratings_def)
  qed
  have empty: "aggregate [] = []"
    by (simp add: aggregate_rows group_keys_def)
  have dist: "distinct (map stat_row.movieId (aggregate df))"
    by (simp only: keys distinct_group_keys)
  have ids: "set (map stat_row.movieId (aggregate df)) = rating_row.movieId ` set df"
    by (simp only: keys set_group_keys)
  from dist ids rows empty show ?thesis by blast
qed

text \<open>On the scenario: movie 1 has two events with mean 4, movie 2 one event with mean 4.\<close>

theorem aggregate_one_stat_per_movie_witness:
  "\<lparr>movieId = 1, avg_rating = 4, rating_count = 2\<rparr> \<in> set (aggregate scenario_events) \<and>
   distinct (map stat_row.movieId (aggregate scenario_events)) \<and>
   int (length (filter (\<lambda>r. rating_row.movieId r = 1) scenario_events)) = 2 \<and>
   sum_list (map rating (filter (\<lambda>r. rating_row.movieId r = 1) scenario_events)) / of_int 2 = 4"
proof -
  let ?s = "\<lparr>movieId = 1, avg_rating = 4, rating_count = 2\<rparr>"
  have run: "aggregate scenario_events =
     [?s, \<lparr>movieId = 2, avg_rating = 4, rating_count = 1\<rparr>]"
    by code_simp
  then have mem: "?s \<in> set (aggregate scenario_events)"
    by simp
  from aggregate_one_stat_per_movie [of scenario_events] mem
  have "distinct (map stat_row.movieId (aggregate scenario_events))"
    and "rating_count ?s =
      int (length (filter (\<lambda>r. rating_row.movieId r = stat_row.movieId ?s) scenario_events))"
    and "avg_rating ?s =
      sum_list (map rating (filter (\<lambda>r. rating_row.movieId r = stat_row.movieId ?s) scenario_events))
        / of_int (rating_count ?s)"
    by blast+
  with mem show ?thesis by simp
qed

section \<open>The normalizer\<close>

lemma fit_transform_empty: "fit_transform [] = Inl Value_error"
  by (simp add: fit_transform_def fit_def)

lemma handle_zeros_nonzero: "handle_zeros_in_scale r \<noteq> 0"
  by (simp add: handle_zeros_in_scale_def)

text \<open>On a column with rows the checked division succeeds and the map is affine.\<close>

lemma fit_transform_rows:
  assumes "col \<noteq> []"
  shows "fit_transform col =
    Inr (map (\<lambda>x. (x - Min (set col)) / handle_zeros_in_scale (Max (set col) - Min (set col))) col)"
  using assms
  by (simp add: fit_transform_def fit_def checked_div_def handle_zeros_nonzero
      transform_def Let_def diff_divide_distrib)

text \<open>
  Claim C8. For every column with at least one row whose maximum differs from its
  minimum, scaling succeeds, and the value at every position \<open>i\<close> is
  \<open>(col ! i - min) / (max - min)\<close>, lies between 0 and 1, is exactly 0 where the raw
  value is the minimum and exactly 1 where it is the maximum. The column is a single
  dimension: \<open>calculate_popularity\<close> scales the \<open>avg_rating\<close> column and the
  \<open>rating_count\<close> column by this function, each from its own minimum and maximum.
\<close>

theorem min_max_scaling_unit_interval:
  assumes "col \<noteq> []" and "Min (set col) \<noteq> Max (set col)"
  shows "\<exists>ys. fit_transform col = Inr ys \<and> length ys = length col \<and>
     (\<forall>i < length col.
        ys ! i = (col ! i - Min (set col)) / (Max (set col) - Min (set col)) \<and>
        0 \<le> ys ! i \<and> ys ! i \<le> 1 \<and>
        (col ! i = Min (set col) \<longrightarrow> ys ! i = 0) \<and>
        (col ! i = Max (set col) \<longrightarrow> ys ! i = 1))"
proof -
  let ?mn = "Min (set col)" and ?mx = "Max (set col)"
  let ?ys = "map (\<lambda>x. (x - ?mn) / (?mx - ?mn)) col"
  have "?mn \<le> ?mx"
    using assms(1) by (simp add: Min_le_iff)
  with assms(2) have pos: "0 < ?mx - ?mn" by simp
  then have run: "fit_transform col = Inr ?ys"
    using fit_transform_rows [OF assms(1)] by (simp add: handle_zeros_in_scale_def)
  have row: "?ys ! i = (col ! i - ?mn) / (?mx - ?mn) \<and>
        0 \<le> ?ys ! i \<and> ?ys ! i \<le> 1 \<and>
        (col ! i = ?mn \<longrightarrow> ?ys ! i = 0) \<and>
        (col ! i = ?mx \<longrightarrow> ?ys ! i = 1)" if "i < length col" for i
  proof -
    from that have "col ! i \<in> set col" by simp
    then have "?mn \<le> col ! i" and "col ! i \<le> ?mx" by simp_all
    with pos that show ?thesis by simp
  qed
  from run row show ?thesis by auto
qed

text \<open>The column 4, 2, 3 has range 2 and scales to 1, 0, 1/2.\<close>

theorem min_max_scaling_unit_interval_witness:
  "[4, 2, 3] \<noteq> ([] :: rat list) \<and> Min (set [4, 2, 3 :: rat]) \<noteq> Max (set [4, 2, 3]) \<and>
   fit_transform [4, 2, 3] = Inr [1, 0, 1 / 2] \<and>
   (\<exists>ys. fit_transform [4, 2, 3] = Inr ys \<and> ys ! 1 = 0 \<and> ys ! 0 = 1 \<and> 0 \<le> ys ! 2 \<and> ys ! 2 \<le> 1)"
proof -
  have h1: "[4, 2, 3] \<noteq> ([] :: rat list)" by simp
  have h2: "Min (set [4, 2, 3 :: rat]) \<noteq> Max (set [4, 2, 3])" by simp
  have run: "fit_transform [4, 2, 3] = Inr [1, 0, 1 / 2]" by code_simp
  from min_max_scaling_unit_interval [OF h1 h2] h1 h2 run show ?thesis
    by simp
qed

text \<open>
  Claim C5. For every column with at least one row whose maximum equals its minimum,
  scaling returns a result and not an error (in particular not \<open>Zero_division\<close>: the zero
  range is replaced by one before the division), and every row of the column is mapped
  to the one constant 0.
\<close>

theorem min_max_scaling_zero_range:
  assumes "col \<noteq> []" and "Min (set col) = Max (set col)"
  shows "fit_transform col = Inr (replicate (length col) 0)"
proof -
  have const: "x = Min (set col)" if "x \<in> set col" for x
  proof -
    from that have "Min (set col) \<le> x" and "x \<le> Max (set col)" by simp_all
    with assms(2) show ?thesis by simp
  qed
  have "map (\<lambda>x. (x - Min (set col)) / handle_zeros_in_scale (Max (set col) - Min (set col))) col
      = map (\<lambda>x. 0) col"
    by (rule map_cong) (simp_all add: const)
  then show ?thesis
    using fit_transform_rows [OF assms(1)] by (simp add: map_replicate_const)
qed

text \<open>The averages of the scenario are 4 and 4: both are mapped to 0.\<close>

theorem min_max_scaling_zero_range_witness:
  "map avg_rating (aggregate scenario_events) = [4, 4] \<and>
   [4, 4] \<noteq> ([] :: rat list) \<and> Min (set [4, 4 :: rat]) = Max (set [4, 4]) \<and>
   fit_transform [4, 4] = Inr [0, 0]"
proof -
  have col: "map avg_rating (aggregate scenario_events) = [4, 4]" by code_simp
  have h1: "[4, 4] \<noteq> ([] :: rat list)" by simp
  have h2: "Min (set [4, 4 :: rat]) = Max (set [4, 4])" by simp
  from min_max_scaling_zero_range [OF h1 h2] col h1 h2 show ?thesis
    by (simp add: numeral_2_eq_2)
qed

text \<open>The scaler computes the normalization of the specification.\<close>

lemma scale_is_norm:
  assumes "x \<in> set col"
  shows "(x - Min (set col)) / handle_zeros_in_scale (Max (set col) - Min (set col))
     = min_max_norm col x"
proof (cases "Max (set col) = Min (set col)")
  case True
  from assms have "Min (set col) \<le> x" and "x \<le> Max (set col)" by simp_all
  with True have "x = Min (set col)" by simp
  with True show ?thesis by (simp add: min_max_norm_def)
next
  case False
  then show ?thesis by (simp add: min_max_norm_def handle_zeros_in_scale_def)
qed

lemma fit_transform_norm:
  assumes "col \<noteq> []"
  shows "fit_transform col = Inr (map (min_max_norm col) col)"
proof -
  have "map (\<lambda>x. (x - Min (set col)) / handle_zeros_in_scale (Max (set col) - Min (set col))) col
      = map (min_max_norm col) col"
    by (rule map_cong) (simp_all add: scale_is_norm)
  with fit_transform_rows [OF assms] show ?thesis by simp
qed

section \<open>Sorting and joining\<close>

lemma merge_Nil: "merge kl kr join [] right = []"
  by (simp add: merge_def)

lemma merge_Cons:
  "merge kl kr join (l # ls) right =
     map (join l) (filter (\<lambda>r. kr r = kl l) right) @ merge kl kr join ls right"
  by (simp add: merge_def)

lemma set_merge:
  "set (merge kl kr join left right) =
     {join l r | l r. l \<in> set left \<and> r \<in> set right \<and> kr r = kl l}"
  by (auto simp: merge_def)

lemma sorted_wrt_same_key:
  "(\<And>x. x \<in> set xs \<Longrightarrow> g x = c) \<Longrightarrow> sorted_wrt (\<lambda>a b. g b \<le> (g a :: rat)) xs"
  by (induction xs) auto

text \<open>The join with the movie table keeps the order of the scored frame.\<close>

lemma merge_keeps_order:
  assumes "\<And>l r. g' (join l r) = g l"
  shows "sorted_wrt (\<lambda>a b. g b \<le> (g a :: rat)) left \<Longrightarrow>
     sorted_wrt (\<lambda>a b. g' b \<le> g' a) (merge kl kr join left right)"
proof (induction left)
  case Nil
  show ?case by (simp add: merge_Nil)
next
  case (Cons l ls)
  have block: "sorted_wrt (\<lambda>a b. g' b \<le> g' a) (map (join l) (filter (\<lambda>r. kr r = kl l) right))"
    by (rule sorted_wrt_same_key [where c = "g l"]) (auto simp: assms)
  have cross: "g' y \<le> g' x"
    if "x \<in> set (map (join l) (filter (\<lambda>r. kr r = kl l) right))"
      and "y \<in> set (merge kl kr join ls right)" for x y
  proof -
    from that(1) have x: "g' x = g l" by (auto simp: assms)
    from that(2) obtain l' where "l' \<in> set ls" and y: "g' y = g l'"
      by (auto simp: set_merge assms)
    with Cons.prems have "g l' \<le> g l" by simp
    with x y show ?thesis by simp
  qed
  from Cons have rest: "sorted_wrt (\<lambda>a b. g' b \<le> g' a) (merge kl kr join ls right)"
    by simp
  from block rest cross show ?case
    by (simp add: merge_Cons sorted_wrt_append)
qed

lemma lawful_argsort_indices:
  assumes "lawful_argsort argsort"
  shows "set (argsort ks) = {0..<length ks}"
proof -
  from assms have "mset (argsort ks) = mset [0..<length ks]"
    by (simp add: lawful_argsort_def)
  then have "set (argsort ks) = set [0..<length ks]"
    by (rule mset_eq_setD)
  then show ?thesis by simp
qed

lemma mset_sort_values:
  assumes "lawful_argsort argsort"
  shows "mset (sort_values argsort key df) = mset df"
proof -
  from assms have "mset (argsort (map key df)) = mset [0..<length df]"
    by (simp add: lawful_argsort_def)
  then have "mset (map (\<lambda>i. df ! i) (argsort (map key df))) = mset (map (\<lambda>i. df ! i) [0..<length df])"
    by (simp only: mset_map)
  then show ?thesis
    by (simp add: sort_values_def map_nth)
qed

lemma sorted_sort_values:
  assumes "lawful_argsort argsort"
  shows "sorted_wrt (\<lambda>a b. key b \<le> key a) (sort_values argsort key df)"
proof -
  let ?is = "argsort (map key df)"
  from assms have "sorted_wrt (\<lambda>i j. map key df ! j \<le> map key df ! i) ?is"
    by (simp add: lawful_argsort_def)
  moreover have "i < length df" if "i \<in> set ?is" for i
    using that lawful_argsort_indices [OF assms, of "map key df"] by simp
  ultimately have "sorted_wrt (\<lambda>i j. key (df ! j) \<le> key (df ! i)) ?is"
    by (auto elim!: sorted_wrt_mono_rel [rotated])
  then show ?thesis
    by (simp add: sort_values_def sorted_wrt_map)
qed

lemma zip_positions:
  "p \<in> set (zip ks [0..<length ks]) \<Longrightarrow> fst p = ks ! snd p"
  by (cases p) (auto simp: set_zip)

lemma lawful_stable_argsort: "lawful_argsort stable_argsort"
  unfolding lawful_argsort_def
proof (intro allI conjI)
  fix ks :: "rat list"
  let ?zs = "zip ks [0..<length ks]"
  let ?ss = "sort_key (\<lambda>p. - fst p) ?zs"
  have "mset (map snd ?ss) = mset (map snd ?zs)"
    by (simp only: mset_map mset_sort)
  then show "mset (stable_argsort ks) = mset [0..<length ks]"
    by (simp add: stable_argsort_def)
  have "sorted (map (\<lambda>p. - fst p) ?ss)"
    by (rule sorted_sort_key)
  then have "sorted_wrt (\<lambda>p q. fst q \<le> fst p) ?ss"
    by (simp add: sorted_wrt_map)
  moreover have "fst p = ks ! snd p" if "p \<in> set ?ss" for p
    using that by (simp add: zip_positions)
  ultimately have "sorted_wrt (\<lambda>p q. ks ! snd q \<le> ks ! snd p) ?ss"
    by (auto elim!: sorted_wrt_mono_rel [rotated])
  then show "sorted_wrt (\<lambda>i j. ks ! j \<le> ks ! i) (stable_argsort ks)"
    by (simp add: stable_argsort_def sorted_wrt_map)
qed

lemma lawful_reverse_ties_argsort: "lawful_argsort reverse_ties_argsort"
  unfolding lawful_argsort_def
proof (intro allI conjI)
  fix ks :: "rat list"
  let ?zs = "zip ks [0..<length ks]"
  let ?ss = "sort_key fst ?zs"
  have "mset (map snd ?ss) = mset (map snd ?zs)"
    by (simp only: mset_map mset_sort)
  then show "mset (reverse_ties_argsort ks) = mset [0..<length ks]"
    by (simp add: reverse_ties_argsort_def)
  have "sorted (map fst ?ss)"
    by (rule sorted_sort_key)
  then have "sorted_wrt (\<lambda>p q. fst p \<le> fst q) ?ss"
    by (simp add: sorted_wrt_map)
  moreover have "fst p = ks ! snd p" if "p \<in> set ?ss" for p
    using that by (simp add: zip_positions)
  ultimately have "sorted_wrt (\<lambda>p q. ks ! snd p \<le> ks ! snd q) ?ss"
    by (auto elim!: sorted_wrt_mono_rel [rotated])
  then show "sorted_wrt (\<lambda>i j. ks ! j \<le> ks ! i) (reverse_ties_argsort ks)"
    by (simp add: reverse_ties_argsort_def sorted_wrt_map sorted_wrt_rev)
qed


section \<open>The scorer\<close>

lemma zip_columns:
  "zip xs (zip (map f xs) (map g xs)) = map (\<lambda>x. (x, f x, g x)) xs"
  by (induction xs) auto

lemma aggregate_nonempty: "ratings_df \<noteq> [] \<Longrightarrow> aggregate ratings_df \<noteq> []"
proof -
  assume "ratings_df \<noteq> []"
  then have "set (group_keys ratings_df) \<noteq> {}" by (simp add: set_group_keys)
  then show ?thesis by (auto simp: aggregate_rows)
qed

lemma calculate_popularity_rows:
  assumes "ratings_df \<noteq> []"
  shows "calculate_popularity argsort movies_df ratings_df =
     Inr (merge stat_row.movieId movie_row.movieId add_movie
           (sort_values argsort popularity_score (scored_rows (aggregate ratings_df))) movies_df)"
proof -
  let ?df = "aggregate ratings_df"
  let ?avg = "map avg_rating ?df" and ?cnt = "map (\<lambda>s. rat_of_int (rating_count s)) ?df"
  from assms have ne: "?df \<noteq> []" by (rule aggregate_nonempty)
  from ne have "?avg \<noteq> []" by simp
  then have a: "fit_transform ?avg = Inr (map (\<lambda>s. min_max_norm ?avg (avg_rating s)) ?df)"
    by (simp add: fit_transform_norm o_def del: set_map)
  from ne have "?cnt \<noteq> []" by simp
  then have c: "fit_transform ?cnt = Inr (map (\<lambda>s. min_max_norm ?cnt (of_int (rating_count s))) ?df)"
    by (simp add: fit_transform_norm o_def del: set_map)
  show ?thesis
    unfolding calculate_popularity_def Let_def a c
    by (simp add: zip_columns scored_rows_def o_def)
qed

text \<open>
  Claim C1. For every movie table and every non-empty rating table,
  \<open>calculate_popularity\<close> returns a frame (it raises only for an empty rating table),
  and every row of that frame carries the statistics of one aggregated movie, the
  min-max normalization of its average rating and of its rating count over the
  aggregated movies, and the popularity score 0.4 times the first plus 0.6 times the
  second. The frame is ordered by that score alone: scores never increase along the
  rows. This holds for whatever lawful argsort the library uses.
\<close>

theorem popularity_score_formula:
  assumes "lawful_argsort argsort" and "ratings_df \<noteq> []"
  shows "\<exists>result. calculate_popularity argsort movies_df ratings_df = Inr result \<and>
     (\<forall>e \<in> set result.
        (\<exists>s \<in> set (aggregate ratings_df).
           stat_row.movieId e = stat_row.movieId s \<and> avg_rating e = avg_rating s \<and>
           rating_count e = rating_count s) \<and>
        avg_rating_scaled e =
          min_max_norm (map avg_rating (aggregate ratings_df)) (avg_rating e) \<and>
        rating_count_scaled e =
          min_max_norm (map (\<lambda>s. of_int (rating_count s)) (aggregate ratings_df))
            (of_int (rating_count e)) \<and>
        popularity_score e = 4 / 10 * avg_rating_scaled e + 6 / 10 * rating_count_scaled e) \<and>
     sorted_wrt (\<lambda>a b. popularity_score b \<le> popularity_score a) result"
proof -
  let ?agg = "aggregate ratings_df"
  let ?sv = "sort_values argsort popularity_score (scored_rows ?agg)"
  let ?result = "merge stat_row.movieId movie_row.movieId add_movie ?sv movies_df"
  have run: "calculate_popularity argsort movies_df ratings_df = Inr ?result"
    by (rule calculate_popularity_rows [OF assms(2)])
  have "set ?sv = set (scored_rows ?agg)"
    by (rule mset_eq_setD) (rule mset_sort_values [OF assms(1)])
  then have rows: "\<exists>s \<in> set ?agg. \<exists>m. e = add_movie (add_scores s
      (min_max_norm (map avg_rating ?agg) (avg_rating s))
      (min_max_norm (map (\<lambda>s. of_int (rating_count s)) ?agg) (of_int (rating_count s)))) m"
    if "e \<in> set ?result" for e
    using that by (auto simp: set_merge scored_rows_def)
  have fields: "(\<exists>s \<in> set ?agg.
           stat_row.movieId e = stat_row.movieId s \<and> avg_rating e = avg_rating s \<and>
           rating_count e = rating_count s) \<and>
        avg_rating_scaled e = min_max_norm (map avg_rating ?agg) (avg_rating e) \<and>
        rating_count_scaled e =
          min_max_norm (map (\<lambda>s. of_int (rating_count s)) ?agg) (of_int (rating_count e)) \<and>
        popularity_score e = 4 / 10 * avg_rating_scaled e + 6 / 10 * rating_count_scaled e"
    if "e \<in> set ?result" for e
  proof -
    from rows [OF that] obtain s m where s: "s \<in> set ?agg"
      and e: "e = add_movie (add_scores s
        (min_max_norm (map avg_rating ?agg) (avg_rating s))
        (min_max_norm (map (\<lambda>s. of_int (rating_count s)) ?agg) (of_int (rating_count s)))) m"
      by blast
    have "stat_row.movieId e = stat_row.movieId s \<and> avg_rating e = avg_rating s \<and>
           rating_count e = rating_count s"
      by (simp add: e add_movie_def add_scores_def)
    with s have "\<exists>s \<in> set ?agg.
           stat_row.movieId e = stat_row.movieId s \<and> avg_rating e = avg_rating s \<and>
           rating_count e = rating_count s" by blast
    then show ?thesis
      by (simp add: e add_movie_def add_scores_def)
  qed
  have "sorted_wrt (\<lambda>a b. popularity_score b \<le> popularity_score a) ?sv"
    by (rule sorted_sort_values [OF assms(1)])
  then have ordered: "sorted_wrt (\<lambda>a b. popularity_score b \<le> popularity_score a) ?result"
    by (rule merge_keeps_order [rotated]) (simp add: add_movie_def)
  from run fields ordered show ?thesis by blast
qed

text \<open>On the scenario movie "A" (two ratings) scores 0.6 and precedes "B", which scores 0.\<close>

theorem popularity_score_formula_witness:
  "lawful_argsort stable_argsort \<and> scenario_events \<noteq> [] \<and>
   calculate_popularity stable_argsort scenario_movies scenario_events = Inr scenario_entries \<and>
   entry_A \<in> set scenario_entries \<and>
   popularity_score entry_A = 4 / 10 * avg_rating_scaled entry_A + 6 / 10 * rating_count_scaled entry_A \<and>
   sorted_wrt (\<lambda>a b. popularity_score b \<le> popularity_score a) scenario_entries"
proof -
  have h2: "scenario_events \<noteq> []" by (simp add: scenario_events_def)
  have run: "calculate_popularity stable_argsort scenario_movies scenario_events = Inr scenario_entries"
    by code_simp
  have mem: "entry_A \<in> set scenario_entries" by (simp add: scenario_entries_def)
  from popularity_score_formula [OF lawful_stable_argsort h2, of scenario_movies] run mem
  have "popularity_score entry_A = 4 / 10 * avg_rating_scaled entry_A + 6 / 10 * rating_count_scaled entry_A"
    and "sorted_wrt (\<lambda>a b. popularity_score b \<le> popularity_score a) scenario_entries"
    by auto
  with lawful_stable_argsort h2 run mem show ?thesis by simp
qed

section \<open>Ranking\<close>


lemma calculate_popularity_empty:
  "calculate_popularity argsort movies_df [] = Inl Value_error"
  by (simp add: calculate_popularity_def aggregate_def avg_ratings_def group_keys_def
      merge_Nil fit_transform_empty)

lemma calculate_popularity_sorted:
  assumes "lawful_argsort argsort"
    and "calculate_popularity argsort movies_df ratings_df = Inr frame"
  shows "sorted_wrt (\<lambda>a b. popularity_score b \<le> popularity_score a) frame"
proof -
  from assms(2) have "ratings_df \<noteq> []"
    by (auto simp: calculate_popularity_empty)
  from calculate_popularity_rows [OF this, of argsort movies_df] assms(2)
  have frame: "frame = merge stat_row.movieId movie_row.movieId add_movie
      (sort_values argsort popularity_score (scored_rows (aggregate ratings_df))) movies_df"
    by simp
  have "sorted_wrt (\<lambda>a b. popularity_score b \<le> popularity_score a)
      (sort_values argsort popularity_score (scored_rows (aggregate ratings_df)))"
    by (rule sorted_sort_values [OF assms(1)])
  then show ?thesis
    unfolding frame by (rule merge_keeps_order [rotated]) (simp add: add_movie_def)
qed

section \<open>The genre filter and the recommendation\<close>

lemma boolean_index_map: "boolean_index df (map p df) = filter p df"
  by (induction df) (simp_all add: boolean_index_def)

lemma str_contains_re_genres:
  "compile g = Inr search \<Longrightarrow>
     str_contains_re compile g (map genres df) = Inr (map (genre_matches search) df)"
  by (simp add: str_contains_re_def genre_matches_def o_def)

lemma recommend_re_genre:
  assumes "g \<noteq> []" and "compile g = Inr search"
  shows "recommend_popular_movies_re compile argsort df n (Some g) =
     (if filter (genre_matches search) df = [] then Inr None
      else Inr (Some (head n (sort_values argsort popularity_score (filter (genre_matches search) df)))))"
  using assms
  by (simp add: recommend_popular_movies_re_def str_contains_re_genres boolean_index_map Let_def)

lemma recommend_re_error:
  assumes "g \<noteq> []" and "compile g = Inl err"
  shows "recommend_popular_movies_re compile argsort df n (Some g) = Inl err"
  using assms by (simp add: recommend_popular_movies_re_def str_contains_re_def)

lemma recommend_re_no_genre:
  "0 < n \<Longrightarrow> recommend_popular_movies_re compile argsort df n None = Inr (Some (take (nat n) df))"
  by (simp add: recommend_popular_movies_re_def head_def)


lemma re_compile_literal:
  assumes "set g \<inter> set re_special = {}"
  shows "re_compile g = Inr (map Lit g)"
proof -
  from assms have 1: "filter (\<lambda>c. c \<in> set re_special \<and> c \<noteq> CHR ''.'') g = []"
    by (auto simp: filter_empty_conv)
  from assms have "CHR ''.'' \<notin> set g"
    by (auto simp: re_special_def)
  then have 2: "map (\<lambda>c. if c = CHR ''.'' then Any_char else Lit c) g = map Lit g"
    by (intro map_cong) auto
  from 1 2 show ?thesis by (simp add: re_compile_def)
qed

lemma re_fragment_literal:
  "set g \<inter> set re_special = {} \<Longrightarrow> re_fragment g = Inr (re_search (map Lit g))"
  by (simp add: re_fragment_def re_compile_literal)

lemma match_here_literal:
  "match_here (map Lit p) s = prefix (map lower p) (map lower s)"
proof (induction p arbitrary: s)
  case Nil
  show ?case by simp
next
  case (Cons c cs)
  then show ?case by (cases s) auto
qed

lemma re_search_literal:
  "re_search (map Lit p) s = sublist (map lower p) (map lower s)"
proof (induction s)
  case Nil
  show ?case by (cases p) simp_all
next
  case (Cons c cs)
  have "re_search (map Lit p) (c # cs) =
      (match_here (map Lit p) (c # cs) \<or> re_search (map Lit p) cs)"
    by simp
  also have "\<dots> = (prefix (map lower p) (map lower (c # cs)) \<or> sublist (map lower p) (map lower cs))"
    by (simp only: match_here_literal Cons.IH)
  also have "\<dots> = sublist (map lower p) (map lower (c # cs))"
    by (simp add: sublist_Cons_right)
  finally show ?case .
qed

lemma genre_matches_literal: "genre_matches (re_search (map Lit g)) = genre_contains g"
  by (rule ext) (simp add: genre_matches_def genre_contains_def re_search_literal split: option.splits)

text \<open>
  Claim C3, as the code has it. For every non-empty genre query free of the special
  characters of regular expressions, and every frame, the rows that the recommendation
  ranks are exactly the entries whose genres string is present and contains the query
  as a substring, letter case ignored; where there is none the result is \<open>None\<close>.
  (A query with special characters is a regular expression to the program.)
\<close>

theorem genre_filter_literal_query:
  assumes "g \<noteq> []" and "set g \<inter> set re_special = {}"
  shows "recommend_popular_movies argsort df n (Some g) =
     (if filter (genre_contains g) df = [] then Inr None
      else Inr (Some (head n (sort_values argsort popularity_score (filter (genre_contains g) df)))))"
  using recommend_re_genre [where compile = re_fragment, OF assms(1) re_fragment_literal [OF assms(2)]]
  by (simp only: genre_matches_literal recommend_popular_movies_def)

theorem genre_filter_literal_query_witness:
  "''drama'' \<noteq> [] \<and> set ''drama'' \<inter> set re_special = {} \<and>
   filter (genre_contains ''drama'') scenario_entries = [entry_B] \<and>
   recommend_popular_movies stable_argsort scenario_entries 10 (Some ''drama'')
     = Inr (Some [entry_B])"
proof -
  have h1: "''drama'' \<noteq> []" by simp
  have h2: "set ''drama'' \<inter> set re_special = {}" by code_simp
  have f: "filter (genre_contains ''drama'') scenario_entries = [entry_B]" by code_simp
  have s: "head 10 (sort_values stable_argsort popularity_score [entry_B]) = [entry_B]"
    by code_simp
  from genre_filter_literal_query [OF h1 h2, of stable_argsort scenario_entries 10]
  have "recommend_popular_movies stable_argsort scenario_entries 10 (Some ''drama'')
     = Inr (Some [entry_B])"
    by (simp add: f s)
  with h1 h2 f show ?thesis by simp
qed

text \<open>
  Claim C3 as stated covers arbitrary query strings. The query "." is contained in no
  genres string, yet as a regular expression it matches every non-empty one, so the
  drama is kept.
\<close>

theorem regex_query_counterexample:
  "\<not> genre_contains ''.'' entry_B \<and>
   recommend_popular_movies stable_argsort [entry_B] 1 (Some ''.'') = Inr (Some [entry_B])"
proof -
  have 1: "\<not> genre_contains ''.'' entry_B" by code_simp
  have 2: "recommend_popular_movies stable_argsort [entry_B] 1 (Some ''.'') = Inr (Some [entry_B])"
    by code_simp
  from 1 2 show ?thesis by simp
qed

text \<open>
  Claim C4, as the code has it. For every frame, count and non-empty genre query, and
  whatever the rules of regular expressions are: if the query does not compile, the
  recommendation raises the error of the compilation; if it compiles and matches no
  entry, the result is the signal \<open>None\<close> (neither an error nor a frame, not even an
  empty one); if it compiles and matches some entry, the result is a frame and never
  the signal.
\<close>

theorem no_match_signal:
  assumes "g \<noteq> []"
  shows "case compile g of
      Inl err \<Rightarrow> recommend_popular_movies_re compile argsort df n (Some g) = Inl err
    | Inr search \<Rightarrow>
        ((\<forall>e \<in> set df. \<not> genre_matches search e) \<longrightarrow>
           recommend_popular_movies_re compile argsort df n (Some g) = Inr None) \<and>
        ((\<exists>e \<in> set df. genre_matches search e) \<longrightarrow>
           (\<exists>rows. recommend_popular_movies_re compile argsort df n (Some g) = Inr (Some rows)))"
proof (cases "compile g")
  case (Inl err)
  with recommend_re_error [where compile = compile, OF assms Inl] show ?thesis by simp
next
  case (Inr search)
  show ?thesis
    by (simp add: Inr recommend_re_genre [where compile = compile, OF assms Inr] filter_empty_conv)
qed

theorem no_match_signal_witness:
  "''sci-fi'' \<noteq> [] \<and> re_fragment ''sci-fi'' = Inr (re_search (map Lit ''sci-fi'')) \<and>
   \<not> genre_matches (re_search (map Lit ''sci-fi'')) entry_A \<and>
   \<not> genre_matches (re_search (map Lit ''sci-fi'')) entry_B \<and>
   recommend_popular_movies stable_argsort scenario_entries 5 (Some ''sci-fi'') = Inr None"
proof -
  have h: "''sci-fi'' \<noteq> []" by simp
  have "set ''sci-fi'' \<inter> set re_special = {}" by code_simp
  then have c: "re_fragment ''sci-fi'' = Inr (re_search (map Lit ''sci-fi''))"
    by (rule re_fragment_literal)
  have a: "\<not> genre_matches (re_search (map Lit ''sci-fi'')) entry_A" by code_simp
  have b: "\<not> genre_matches (re_search (map Lit ''sci-fi'')) entry_B" by code_simp
  have "(\<forall>e \<in> set scenario_entries. \<not> genre_matches (re_search (map Lit ''sci-fi'')) e) \<longrightarrow>
      recommend_popular_movies_re re_fragment stable_argsort scenario_entries 5 (Some ''sci-fi'') = Inr None"
    using no_match_signal [OF h, of re_fragment stable_argsort scenario_entries 5]
    unfolding c sum.case by blast
  moreover have "\<forall>e \<in> set scenario_entries. \<not> genre_matches (re_search (map Lit ''sci-fi'')) e"
    using a b by (simp only: scenario_entries_def list.set ball_simps insert_iff empty_iff) blast
  ultimately have "recommend_popular_movies stable_argsort scenario_entries 5 (Some ''sci-fi'') = Inr None"
    unfolding recommend_popular_movies_def by blast
  with h c a b show ?thesis by blast
qed

text \<open>
  Claim C4 as stated promises the signal, and no error, for every non-empty query that
  matches no entry. The query "[" is not empty and matches no entry, but it is no
  regular expression: the recommendation raises \<open>re.error\<close>.
\<close>

theorem bracket_query_counterexample:
  "''['' \<noteq> [] \<and> re_compile ''['' = Inl Re_error \<and>
   recommend_popular_movies stable_argsort scenario_entries 5 (Some ''['') = Inl Re_error \<and>
   recommend_popular_movies stable_argsort scenario_entries 5 (Some ''['') \<noteq> Inr None"
proof -
  have 1: "''['' \<noteq> []" by simp
  have 2: "re_compile ''['' = Inl Re_error" by code_simp
  have 3: "recommend_popular_movies stable_argsort scenario_entries 5 (Some ''['') = Inl Re_error"
    by code_simp
  from 1 2 3 show ?thesis by simp
qed




text \<open>
  Claim C9. For every frame and positive \<open>n\<close>, the recommendation without a genre is
  the first \<open>n\<close> rows of the frame as given (the whole frame when \<open>n\<close> is at least its
  length); no sort is applied. If the frame is ordered by never increasing score, no
  row left out scores higher than a row returned. Without that precondition the result
  need not be a top \<open>n\<close>: on the reversed scenario the first row is "B", which scores
  less than "A".
\<close>

theorem recommend_without_genre_is_prefix:
  assumes "0 < n"
  shows "recommend_popular_movies argsort df n None = Inr (Some (take (nat n) df)) \<and>
     (length df \<le> nat n \<longrightarrow> recommend_popular_movies argsort df n None = Inr (Some df)) \<and>
     (sorted_wrt (\<lambda>a b. popularity_score b \<le> popularity_score a) df \<longrightarrow>
        (\<forall>x \<in> set (take (nat n) df). \<forall>y \<in> set (drop (nat n) df).
           popularity_score y \<le> popularity_score x)) \<and>
     recommend_popular_movies argsort (rev scenario_entries) 1 None = Inr (Some [entry_B]) \<and>
     popularity_score entry_B < popularity_score entry_A"
proof -
  from assms have run: "recommend_popular_movies argsort df n None = Inr (Some (take (nat n) df))"
    by (simp add: recommend_popular_movies_def recommend_re_no_genre)
  have top: "\<forall>x \<in> set (take (nat n) df). \<forall>y \<in> set (drop (nat n) df).
           popularity_score y \<le> popularity_score x"
    if "sorted_wrt (\<lambda>a b. popularity_score b \<le> popularity_score a) df"
  proof -
    from that have "sorted_wrt (\<lambda>a b. popularity_score b \<le> popularity_score a)
        (take (nat n) df @ drop (nat n) df)" by simp
    then show ?thesis unfolding sorted_wrt_append by blast
  qed
  have ex: "recommend_popular_movies argsort (rev scenario_entries) 1 None = Inr (Some [entry_B])"
    by (simp add: recommend_popular_movies_def recommend_re_no_genre scenario_entries_def)
  have lt: "popularity_score entry_B < popularity_score entry_A"
    by (simp add: entry_A_def entry_B_def)
  from run top ex lt show ?thesis by simp
qed

theorem recommend_without_genre_is_prefix_witness:
  "(0::int) < 1 \<and> (0::int) < 1000 \<and>
   recommend_popular_movies stable_argsort scenario_entries 1 None = Inr (Some [entry_A]) \<and>
   recommend_popular_movies stable_argsort scenario_entries 1000 None = Inr (Some scenario_entries) \<and>
   recommend_popular_movies stable_argsort (rev scenario_entries) 1 None = Inr (Some [entry_B])"
proof -
  have h1: "(0::int) < 1" and h2: "(0::int) < 1000" by simp_all
  have len: "length scenario_entries \<le> nat 1000" by (simp add: scenario_entries_def)
  from recommend_without_genre_is_prefix [OF h1, of stable_argsort scenario_entries]
  have first: "recommend_popular_movies stable_argsort scenario_entries 1 None
      = Inr (Some (take (nat 1) scenario_entries))"
    and unsorted: "recommend_popular_movies stable_argsort (rev scenario_entries) 1 None
      = Inr (Some [entry_B])"
    by blast+
  from recommend_without_genre_is_prefix [OF h2, of stable_argsort scenario_entries] len
  have all_rows: "recommend_popular_movies stable_argsort scenario_entries 1000 None
      = Inr (Some scenario_entries)"
    by blast
  have "take (nat 1) scenario_entries = [entry_A]" by (simp add: scenario_entries_def)
  with first have "recommend_popular_movies stable_argsort scenario_entries 1 None
      = Inr (Some [entry_A])" by simp
  with h1 h2 all_rows unsorted show ?thesis by blast
qed

text \<open>
  Claim C10. For every frame and count, the recommendation with the empty string as
  genre equals the recommendation without a genre: it is the head of the frame, it is
  never the signal \<open>None\<close>, and on the empty frame it is the empty frame.
\<close>

theorem empty_genre_is_no_genre:
  "recommend_popular_movies argsort df n (Some []) = recommend_popular_movies argsort df n None \<and>
   recommend_popular_movies argsort df n (Some []) = Inr (Some (head n df)) \<and>
   recommend_popular_movies argsort df n (Some []) \<noteq> Inr None \<and>
   recommend_popular_movies argsort [] n (Some []) = Inr (Some [])"
  by (simp add: recommend_popular_movies_def recommend_popular_movies_re_def head_def)

end
